theory Spec2Isabelle
  imports Main "HOL-Library.AList" "HOL-Library.Char_ord" "HOL-Library.List_Lexorder"
begin

section \<open>Go runtime and library behaviour the provider relies on\<close>

text \<open>
  A Go \<open>string\<close> is a sequence of bytes; \<open>string\<close> (a list of 8-bit \<open>char\<close>)
  models it byte for byte.

  \<open>strings.Split(s, sep)\<close> for a one-byte separator: the pieces of \<open>s\<close> between
  the occurrences of \<open>sep\<close>, in order. There is always at least one piece (the empty
  string splits into one empty piece), and empty pieces are kept.
\<close>

fun strings_Split :: "string \<Rightarrow> char \<Rightarrow> string list" where
  "strings_Split [] sep = [[]]"
| "strings_Split (c # cs) sep =
     (if c = sep then [] # strings_Split cs sep
      else (case strings_Split cs sep of
              [] \<Rightarrow> [[c]]
            | p # ps \<Rightarrow> (c # p) # ps))"

section \<open>IdentifierCodec: the composite identifier of a consumer plugin config\<close>

text \<open>The struct \<open>idFields\<close>; its field \<open>id\<close> is \<open>id_f\<close> here (\<open>id\<close> is HOL's identity).\<close>

record idFields =
  consumerId :: string
  pluginName :: string
  id_f :: string

text \<open>
  The provider's errors. Go builds each with \<open>fmt.Errorf\<close>; a constructor stands for
  one call site and carries what the message is formatted from.
\<close>

datatype error =
    MalformedIdentifier string
  | ConflictingConfig
  | ErrorConfiguringPlugin error
  | RemoteError string
  | FailedToCreateConsumerPluginConfig error
  | CouldNotFindConsumerPluginConfig string error
  | CouldNotConfigureConsumerPlugin
  | CouldNotReadConsumerPluginConfigBody string error
  | CouldNotDeleteConsumerPluginConfig error
  | CouldNotFindPlugin error
  | SyntaxError
  | UnmarshalTypeError string
  | FailedToUnmarshalConfigJson error

definition buildId :: "string \<Rightarrow> string \<Rightarrow> string \<Rightarrow> string" where
  "buildId consumer plugin configId =
     consumer @ ''|'' @ plugin @ ''|'' @ configId"

definition splitIdIntoFields :: "string \<Rightarrow> error + idFields" where
  "splitIdIntoFields ident =
     (let idSplit = strings_Split ident (CHR ''|'') in
      if length idSplit \<noteq> 3 then Inl (MalformedIdentifier ident)
      else Inr \<lparr>consumerId = idSplit ! 0, pluginName = idSplit ! 1, id_f = idSplit ! 2\<rparr>)"

section \<open>Go values and the host framework's resource data\<close>

text \<open>
  What an \<open>interface{}\<close> holds in this provider: the values \<open>encoding/json\<close> decodes
  into (nil, bool, float64, string, \<open>[]interface{}\<close>, \<open>map[string]interface{}\<close>).
  A \<open>float64\<close> is carried as the decimal text \<open>encoding/json\<close> prints for it. A map
  is the list of its entries, the keys distinct, in the order one \<open>range\<close> over it
  visits them (an order Go leaves unspecified); a map variable that may be nil is an
  \<open>option\<close> of that.
\<close>

datatype iface =
    VNil
  | VBool bool
  | VFloat64 string
  | VString string
  | VSlice "iface list"
  | VMap "(string \<times> iface) list"

type_synonym gomap = "(string \<times> iface) list"

text \<open>
  A call either returns a value, returns an error, or panics (a failed type assertion).
\<close>

datatype 'a go_result = Ok 'a | Err error | Panic

text \<open>
  \<open>schema.ResourceData\<close>: the local identity and the attributes by name.
  \<open>GetOk\<close> answers the attribute's value and whether it is set to something other
  than its zero value.
\<close>

record ResourceData =
  rd_Id :: string
  rd_attrs :: "string \<rightharpoonup> iface"

definition SetId :: "ResourceData \<Rightarrow> string \<Rightarrow> ResourceData" where
  "SetId d v = d\<lparr>rd_Id := v\<rparr>"

definition Set_attr :: "ResourceData \<Rightarrow> string \<Rightarrow> iface \<Rightarrow> ResourceData" where
  "Set_attr d key v = d\<lparr>rd_attrs := (rd_attrs d)(key \<mapsto> v)\<rparr>"

fun is_zero :: "iface \<Rightarrow> bool" where
  "is_zero VNil = True"
| "is_zero (VBool b) = (\<not> b)"
| "is_zero (VFloat64 f) = (f = ''0'')"
| "is_zero (VString s) = (s = [])"
| "is_zero (VSlice xs) = (xs = [])"
| "is_zero (VMap m) = (m = [])"

definition GetOk :: "ResourceData \<Rightarrow> string \<Rightarrow> iface \<times> bool" where
  "GetOk d key =
     (case rd_attrs d key of
        None \<Rightarrow> (VNil, False)
      | Some v \<Rightarrow> (v, \<not> is_zero v))"

text \<open>
  Modelled from the spec: the helpers \<open>readStringFromResource\<close> and
  \<open>readMapFromResource\<close> are not among the source files. The spec's inputs are a
  mapping \<open>M\<close> and a blob \<open>J\<close>, each "possibly empty/absent": a string attribute that
  is unset or empty reads as the empty string, a map attribute that is unset or empty
  reads as the nil map.
\<close>

definition readStringFromResource :: "ResourceData \<Rightarrow> string \<Rightarrow> string" where
  "readStringFromResource d key =
     (case GetOk d key of
        (VString s, True) \<Rightarrow> s
      | _ \<Rightarrow> [])"

definition readMapFromResource :: "ResourceData \<Rightarrow> string \<Rightarrow> gomap option" where
  "readMapFromResource d key =
     (case GetOk d key of
        (VMap m, True) \<Rightarrow> Some m
      | _ \<Rightarrow> None)"

section \<open>The packages \<open>unicode/utf8\<close> and \<open>unicode/utf16\<close>\<close>

text \<open>
  A rune is a natural number; bytes are read as numbers with \<open>of_char\<close>. The masks
  and shifts of the Go code are written as \<open>mod\<close>, \<open>div\<close> and multiplication.
\<close>

definition RuneError :: nat where
  "RuneError = 0xFFFD"

definition is_cont :: "nat \<Rightarrow> bool" where
  "is_cont b = (0x80 \<le> b \<and> b \<le> 0xBF)"

text \<open>
  \<open>utf8.DecodeRune\<close>: the first rune of the bytes and its width. An encoding that
  is not valid (a stray continuation byte, an overlong form, a surrogate, a value
  above U+10FFFF, a sequence cut short) gives \<open>(RuneError, 1)\<close>; no bytes give
  \<open>(RuneError, 0)\<close>.
\<close>

definition accept_lo :: "nat \<Rightarrow> nat" where
  "accept_lo p0 = (if p0 = 0xE0 then 0xA0 else if p0 = 0xF0 then 0x90 else 0x80)"

definition accept_hi :: "nat \<Rightarrow> nat" where
  "accept_hi p0 = (if p0 = 0xED then 0x9F else if p0 = 0xF4 then 0x8F else 0xBF)"

fun utf8_DecodeRune :: "string \<Rightarrow> nat \<times> nat" where
  "utf8_DecodeRune [] = (RuneError, 0)"
| "utf8_DecodeRune (c0 # p) =
     (let p0 = (of_char c0 :: nat) in
      if p0 < 0x80 then (p0, 1)
      else if p0 < 0xC2 \<or> 0xF4 < p0 then (RuneError, 1)
      else
        (case p of
           [] \<Rightarrow> (RuneError, 1)
         | c1 # q \<Rightarrow>
             (let b1 = (of_char c1 :: nat) in
              if b1 < accept_lo p0 \<or> accept_hi p0 < b1 then (RuneError, 1)
              else if p0 < 0xE0 then ((p0 mod 32) * 64 + b1 mod 64, 2)
              else
                (case q of
                   [] \<Rightarrow> (RuneError, 1)
                 | c2 # q2 \<Rightarrow>
                     (let b2 = (of_char c2 :: nat) in
                      if \<not> is_cont b2 then (RuneError, 1)
                      else if p0 < 0xF0
                        then ((p0 mod 16) * 4096 + (b1 mod 64) * 64 + b2 mod 64, 3)
                      else
                        (case q2 of
                           [] \<Rightarrow> (RuneError, 1)
                         | c3 # q3 \<Rightarrow>
                             (let b3 = (of_char c3 :: nat) in
                              if \<not> is_cont b3 then (RuneError, 1)
                              else ((p0 mod 8) * 262144 + (b1 mod 64) * 4096
                                      + (b2 mod 64) * 64 + b3 mod 64, 4))))))))"

definition utf16_IsSurrogate :: "nat \<Rightarrow> bool" where
  "utf16_IsSurrogate r = (0xD800 \<le> r \<and> r < 0xE000)"

text \<open>\<open>utf8.EncodeRune\<close>: a surrogate or a value above U+10FFFF is written as U+FFFD.\<close>

definition utf8_EncodeRune :: "nat \<Rightarrow> string" where
  "utf8_EncodeRune r =
     (if r \<le> 0x7F then [char_of r]
      else if r \<le> 0x7FF then [char_of (0xC0 + r div 64), char_of (0x80 + r mod 64)]
      else if 0x10FFFF < r \<or> utf16_IsSurrogate r then [CHR 0xEF, CHR 0xBF, CHR 0xBD]
      else if r \<le> 0xFFFF
        then [char_of (0xE0 + r div 4096), char_of (0x80 + (r div 64) mod 64),
              char_of (0x80 + r mod 64)]
      else [char_of (0xF0 + r div 262144), char_of (0x80 + (r div 4096) mod 64),
            char_of (0x80 + (r div 64) mod 64), char_of (0x80 + r mod 64)])"

text \<open>
  \<open>utf16.DecodeRune\<close>: the code point of a surrogate pair, U+FFFD when the two
  are not a high surrogate followed by a low one.
\<close>

definition utf16_DecodeRune :: "nat \<Rightarrow> nat \<Rightarrow> nat" where
  "utf16_DecodeRune r1 r2 =
     (if 0xD800 \<le> r1 \<and> r1 < 0xDC00 \<and> 0xDC00 \<le> r2 \<and> r2 < 0xE000
      then (r1 - 0xD800) * 1024 + (r2 - 0xDC00) + 0x10000
      else RuneError)"

lemma utf8_DecodeRune_width: "s \<noteq> [] \<Longrightarrow> 0 < snd (utf8_DecodeRune s)"
  by (cases s) (auto simp: Let_def split: list.splits)

lemma utf8_DecodeRune_Cons_width: "(r, w) = utf8_DecodeRune (c # cs) \<Longrightarrow> 0 < w"
  using utf8_DecodeRune_width [of "c # cs"] by (metis list.distinct(1) snd_conv)

section \<open>The package \<open>encoding/json\<close>: encoding\<close>

definition hex :: "nat \<Rightarrow> char" where
  "hex n = ''0123456789abcdef'' ! n"

text \<open>
  \<open>htmlSafeSet\<close>: the ASCII bytes written as they are inside a string, all from
  the space on but the double quote, the backslash and \<open><\<close>, \<open>>\<close>, \<open>&\<close>.
\<close>

definition htmlSafeSet :: "nat \<Rightarrow> bool" where
  "htmlSafeSet b =
     (0x20 \<le> b \<and> b < 0x80 \<and> b \<noteq> 0x22 \<and> b \<noteq> 0x5C \<and> b \<noteq> 0x3C \<and> b \<noteq> 0x3E \<and> b \<noteq> 0x26)"

text \<open>
  The body of \<open>(e *encodeState) string\<close> with HTML escaping on, between the two
  double quotes it writes. Bytes that are not valid UTF-8 are written as the escape
  of U+FFFD, and U+2028 and U+2029 are escaped.
\<close>

definition escape_byte :: "char \<Rightarrow> string" where
  "escape_byte c =
     (if c = CHR 0x5C \<or> c = CHR 0x22 then [CHR 0x5C, c]
      else if c = CHR 0x0A then [CHR 0x5C, CHR ''n'']
      else if c = CHR 0x0D then [CHR 0x5C, CHR ''r'']
      else if c = CHR 0x09 then [CHR 0x5C, CHR ''t'']
      else [CHR 0x5C, CHR ''u'', CHR ''0'', CHR ''0'',
            hex (of_char c div 16), hex (of_char c mod 16)])"

function encode_chars :: "string \<Rightarrow> string" where
  "encode_chars [] = []"
| "encode_chars (c # cs) =
     (if (of_char c :: nat) < 0x80 then
        (if htmlSafeSet (of_char c) then [c] else escape_byte c) @ encode_chars cs
      else
        (case utf8_DecodeRune (c # cs) of (r, w) \<Rightarrow>
           if r = RuneError \<and> w = 1
             then [CHR 0x5C, CHR ''u'', CHR ''f'', CHR ''f'', CHR ''f'', CHR ''d'']
                  @ encode_chars cs
           else if r = 0x2028 \<or> r = 0x2029
             then [CHR 0x5C, CHR ''u'', CHR ''2'', CHR ''0'', CHR ''2'', hex (r mod 16)]
                  @ encode_chars (drop w (c # cs))
           else take w (c # cs) @ encode_chars (drop w (c # cs))))"
  by pat_completeness auto
termination
proof (relation "measure length")
  show "wf (measure length)" by simp
qed (use utf8_DecodeRune_Cons_width in \<open>auto simp del: utf8_DecodeRune.simps\<close>)

definition encode_string :: "string \<Rightarrow> string" where
  "encode_string s = [CHR 0x22] @ encode_chars s @ [CHR 0x22]"

text \<open>The pieces written one after the other with \<open>sep\<close> between two of them.\<close>

fun join :: "string \<Rightarrow> string list \<Rightarrow> string" where
  "join sep [] = []"
| "join sep [x] = x"
| "join sep (x # y # ys) = x @ sep @ join sep (y # ys)"

text \<open>
  The encoder for a value: no insignificant white space, the entries of a map sorted
  by key (bytewise).
\<close>

primrec json_encode :: "iface \<Rightarrow> string" where
  "json_encode VNil = ''null''"
| "json_encode (VBool b) = (if b then ''true'' else ''false'')"
| "json_encode (VFloat64 f) = f"
| "json_encode (VString s) = encode_string s"
| "json_encode (VSlice xs) = ''['' @ join '','' (map json_encode xs) @ '']''"
| "json_encode (VMap m) =
     ''{'' @ join '','' (map (\<lambda>(k, t). encode_string k @ '':'' @ t)
                          (sort_key fst (map (map_prod id json_encode) m))) @ ''}''"

text \<open>
  \<open>json.Marshal\<close> of a \<open>map[string]interface{}\<close>: a nil map is \<open>null\<close>. The values
  modelled here always encode, so the error is never returned.
\<close>

definition json_Marshal :: "gomap option \<Rightarrow> error + string" where
  "json_Marshal m =
     (case m of
        None \<Rightarrow> Inr ''null''
      | Some entries \<Rightarrow> Inr (json_encode (VMap entries)))"

section \<open>The package \<open>encoding/json\<close>: scanning\<close>

text \<open>
  A JSON text as the scanner accepts it: the members of an object in the order of the
  text, repeated keys included; a string with its escapes decoded; a number as the
  literal stands in the text.
\<close>

datatype jtext =
    JNull
  | JBool bool
  | JNumber string
  | JString string
  | JArray "jtext list"
  | JObject "(string \<times> jtext) list"

definition hexval :: "char \<Rightarrow> nat option" where
  "hexval c =
     (let b = (of_char c :: nat) in
      if 0x30 \<le> b \<and> b \<le> 0x39 then Some (b - 0x30)
      else if 0x61 \<le> b \<and> b \<le> 0x66 then Some (b - 0x61 + 10)
      else if 0x41 \<le> b \<and> b \<le> 0x46 then Some (b - 0x41 + 10)
      else None)"

text \<open>\<open>getu4\<close>: the number a leading \<open>\uXXXX\<close> escape writes, if there is one.\<close>

definition getu4 :: "string \<Rightarrow> nat option" where
  "getu4 s =
     (case s of
        c0 # c1 # h1 # h2 # h3 # h4 # _ \<Rightarrow>
          (if c0 = CHR 0x5C \<and> c1 = CHR ''u'' then
             (case (hexval h1, hexval h2, hexval h3, hexval h4) of
                (Some a, Some b, Some c, Some d) \<Rightarrow> Some (a * 4096 + b * 256 + c * 16 + d)
              | _ \<Rightarrow> None)
           else None)
      | _ \<Rightarrow> None)"

definition simple_escape :: "char \<Rightarrow> char option" where
  "simple_escape e =
     (if e = CHR 0x22 \<or> e = CHR 0x5C \<or> e = CHR ''/'' then Some e
      else if e = CHR ''b'' then Some (CHR 0x08)
      else if e = CHR ''f'' then Some (CHR 0x0C)
      else if e = CHR ''n'' then Some (CHR 0x0A)
      else if e = CHR ''r'' then Some (CHR 0x0D)
      else if e = CHR ''t'' then Some (CHR 0x09)
      else None)"

definition emit :: "string \<Rightarrow> (string \<times> string) option \<Rightarrow> (string \<times> string) option" where
  "emit bs r = map_option (\<lambda>(t, rest). (bs @ t, rest)) r"

text \<open>
  A string literal after its opening quote: the decoded string and what follows the
  closing quote (the scanner's string states together with \<open>unquote\<close>). A control
  character, an unknown escape or the end of the text before the closing quote is a
  syntax error. Bytes that are not valid UTF-8 and surrogate escapes without a partner
  decode to U+FFFD.
\<close>

function unquote :: "string \<Rightarrow> (string \<times> string) option" where
  "unquote [] = None"
| "unquote (c # cs) =
     (if c = CHR 0x22 then Some ([], cs)
      else if c = CHR 0x5C then
        (case cs of
           [] \<Rightarrow> None
         | e # rest \<Rightarrow>
             if e = CHR ''u'' then
               (case getu4 (c # cs) of
                  None \<Rightarrow> None
                | Some rr \<Rightarrow>
                    if utf16_IsSurrogate rr then
                      (case getu4 (drop 6 (c # cs)) of
                         None \<Rightarrow> emit (utf8_EncodeRune RuneError) (unquote (drop 6 (c # cs)))
                       | Some rr1 \<Rightarrow>
                           if utf16_DecodeRune rr rr1 \<noteq> RuneError
                           then emit (utf8_EncodeRune (utf16_DecodeRune rr rr1))
                                  (unquote (drop 12 (c # cs)))
                           else emit (utf8_EncodeRune RuneError) (unquote (drop 6 (c # cs))))
                    else emit (utf8_EncodeRune rr) (unquote (drop 6 (c # cs))))
             else
               (case simple_escape e of
                  None \<Rightarrow> None
                | Some b \<Rightarrow> emit [b] (unquote rest)))
      else if (of_char c :: nat) < 0x20 then None
      else if (of_char c :: nat) < 0x80 then emit [c] (unquote cs)
      else
        (case utf8_DecodeRune (c # cs) of (rr, w) \<Rightarrow>
           emit (utf8_EncodeRune rr) (unquote (drop w (c # cs)))))"
  by pat_completeness auto
termination
proof (relation "measure length")
  show "wf (measure length)" by simp
qed (use utf8_DecodeRune_Cons_width in \<open>auto simp del: utf8_DecodeRune.simps\<close>)

definition is_digit :: "char \<Rightarrow> bool" where
  "is_digit c = (0x30 \<le> (of_char c :: nat) \<and> (of_char c :: nat) \<le> 0x39)"

text \<open>
  A number literal at the head of the text and what follows it: an optional minus, then
  \<open>0\<close> or a non-zero digit and more digits, then an optional fraction and an optional
  exponent, each with at least one digit. The scanner reads digits as long as there
  are any.
\<close>

definition scan_int :: "string \<Rightarrow> (string \<times> string) option" where
  "scan_int s =
     (case s of
        [] \<Rightarrow> None
      | c # cs \<Rightarrow>
          if c = CHR ''0'' then Some ([c], cs)
          else if is_digit c then Some (c # takeWhile is_digit cs, dropWhile is_digit cs)
          else None)"

definition scan_frac :: "string \<Rightarrow> (string \<times> string) option" where
  "scan_frac s =
     (case s of
        [] \<Rightarrow> Some ([], [])
      | c # cs \<Rightarrow>
          if c = CHR ''.'' then
            (if takeWhile is_digit cs = [] then None
             else Some (c # takeWhile is_digit cs, dropWhile is_digit cs))
          else Some ([], s))"

definition scan_sign :: "string \<Rightarrow> string \<times> string" where
  "scan_sign s =
     (case s of
        [] \<Rightarrow> ([], [])
      | c # cs \<Rightarrow> if c = CHR ''+'' \<or> c = CHR ''-'' then ([c], cs) else ([], s))"

definition scan_exp :: "string \<Rightarrow> (string \<times> string) option" where
  "scan_exp s =
     (case s of
        [] \<Rightarrow> Some ([], [])
      | c # cs \<Rightarrow>
          if c = CHR ''e'' \<or> c = CHR ''E'' then
            (case scan_sign cs of (sg, ds) \<Rightarrow>
               if takeWhile is_digit ds = [] then None
               else Some (c # sg @ takeWhile is_digit ds, dropWhile is_digit ds))
          else Some ([], s))"

definition scan_number :: "string \<Rightarrow> (string \<times> string) option" where
  "scan_number s =
     (case (case s of
              [] \<Rightarrow> ([], [])
            | c # cs \<Rightarrow> if c = CHR ''-'' then ([c], cs) else ([], s)) of
        (neg, s1) \<Rightarrow>
          (case scan_int s1 of
             None \<Rightarrow> None
           | Some (i, s2) \<Rightarrow>
               (case scan_frac s2 of
                  None \<Rightarrow> None
                | Some (f, s3) \<Rightarrow>
                    (case scan_exp s3 of
                       None \<Rightarrow> None
                     | Some (e, s4) \<Rightarrow> Some (neg @ i @ f @ e, s4)))))"

fun strip_prefix :: "string \<Rightarrow> string \<Rightarrow> string option" where
  "strip_prefix [] s = Some s"
| "strip_prefix (p # ps) [] = None"
| "strip_prefix (p # ps) (c # cs) = (if p = c then strip_prefix ps cs else None)"

definition scan_literal :: "string \<Rightarrow> (jtext \<times> string) option" where
  "scan_literal s =
     (case strip_prefix ''true'' s of
        Some rest \<Rightarrow> Some (JBool True, rest)
      | None \<Rightarrow>
          (case strip_prefix ''false'' s of
             Some rest \<Rightarrow> Some (JBool False, rest)
           | None \<Rightarrow>
               (case strip_prefix ''null'' s of
                  Some rest \<Rightarrow> Some (JNull, rest)
                | None \<Rightarrow> None)))"

text \<open>A string, a number or a literal name at the head of the text.\<close>

definition scan_scalar :: "string \<Rightarrow> (jtext \<times> string) option" where
  "scan_scalar s =
     (case s of
        [] \<Rightarrow> None
      | c # cs \<Rightarrow>
          if c = CHR 0x22 then map_option (\<lambda>(t, rest). (JString t, rest)) (unquote cs)
          else if c = CHR ''-'' \<or> is_digit c
            then map_option (\<lambda>(t, rest). (JNumber t, rest)) (scan_number s)
          else scan_literal s)"

datatype token =
    TBeginObject
  | TEndObject
  | TBeginArray
  | TEndArray
  | TColon
  | TComma
  | TScalar jtext

definition punct :: "char \<Rightarrow> token option" where
  "punct c =
     (if c = CHR ''{'' then Some TBeginObject
      else if c = CHR ''}'' then Some TEndObject
      else if c = CHR ''['' then Some TBeginArray
      else if c = CHR '']'' then Some TEndArray
      else if c = CHR '':'' then Some TColon
      else if c = CHR '','' then Some TComma
      else None)"

text \<open>The token at the head of a text that does not start with white space.\<close>

definition next_token :: "string \<Rightarrow> (token \<times> string) option" where
  "next_token s =
     (case s of
        [] \<Rightarrow> None
      | c # cs \<Rightarrow>
          (case punct c of
             Some tok \<Rightarrow> Some (tok, cs)
           | None \<Rightarrow> map_option (\<lambda>(v, rest). (TScalar v, rest)) (scan_scalar s)))"

text \<open>
  The scanner's states, and its stack of open arrays and objects. Here a stack entry
  also holds what has been read of its array or object: \<open>ArrayValue\<close> the elements,
  \<open>ObjectValue\<close> the members, \<open>ObjectKey\<close> the members and the key whose value is
  still to come.
\<close>

datatype scan_state =
    BeginValue
  | BeginValueOrEmpty
  | BeginStringOrEmpty
  | BeginString
  | EndValue

datatype frame =
    ArrayValue "jtext list"
  | ObjectKey "(string \<times> jtext) list" string
  | ObjectValue "(string \<times> jtext) list"

datatype scanner = Scanning "frame list" scan_state | EndTop jtext

text \<open>A value is complete: it goes into the innermost open array or object.\<close>

fun value_done :: "jtext \<Rightarrow> frame list \<Rightarrow> scanner option" where
  "value_done v [] = Some (EndTop v)"
| "value_done v (ArrayValue es # fs) = Some (Scanning (ArrayValue (es @ [v]) # fs) EndValue)"
| "value_done v (ObjectKey ms k # fs) =
     Some (Scanning (ObjectValue (ms @ [(k, v)]) # fs) EndValue)"
| "value_done v (ObjectValue ms # fs) = None"

definition begin_value :: "frame list \<Rightarrow> token \<Rightarrow> scanner option" where
  "begin_value fs tok =
     (case tok of
        TScalar v \<Rightarrow> value_done v fs
      | TBeginArray \<Rightarrow> Some (Scanning (ArrayValue [] # fs) BeginValueOrEmpty)
      | TBeginObject \<Rightarrow> Some (Scanning (ObjectValue [] # fs) BeginStringOrEmpty)
      | _ \<Rightarrow> None)"

definition begin_string :: "frame list \<Rightarrow> token \<Rightarrow> scanner option" where
  "begin_string fs tok =
     (case (tok, fs) of
        (TScalar (JString k), ObjectValue ms # fs') \<Rightarrow>
          Some (Scanning (ObjectKey ms k # fs') EndValue)
      | _ \<Rightarrow> None)"

fun step :: "scanner \<Rightarrow> token \<Rightarrow> scanner option" where
  "step (EndTop v) tok = None"
| "step (Scanning fs BeginValue) tok = begin_value fs tok"
| "step (Scanning fs BeginValueOrEmpty) tok =
     (case tok of
        TEndArray \<Rightarrow>
          (case fs of ArrayValue es # fs' \<Rightarrow> value_done (JArray es) fs' | _ \<Rightarrow> None)
      | _ \<Rightarrow> begin_value fs tok)"
| "step (Scanning fs BeginString) tok = begin_string fs tok"
| "step (Scanning fs BeginStringOrEmpty) tok =
     (case tok of
        TEndObject \<Rightarrow>
          (case fs of ObjectValue ms # fs' \<Rightarrow> value_done (JObject ms) fs' | _ \<Rightarrow> None)
      | _ \<Rightarrow> begin_string fs tok)"
| "step (Scanning fs EndValue) tok =
     (case fs of
        [] \<Rightarrow> None
      | ObjectKey ms k # fs' \<Rightarrow>
          (case tok of TColon \<Rightarrow> Some (Scanning fs BeginValue) | _ \<Rightarrow> None)
      | ObjectValue ms # fs' \<Rightarrow>
          (case tok of
             TComma \<Rightarrow> Some (Scanning fs BeginString)
           | TEndObject \<Rightarrow> value_done (JObject ms) fs'
           | _ \<Rightarrow> None)
      | ArrayValue es # fs' \<Rightarrow>
          (case tok of
             TComma \<Rightarrow> Some (Scanning fs BeginValue)
           | TEndArray \<Rightarrow> value_done (JArray es) fs'
           | _ \<Rightarrow> None))"

definition isSpace :: "char \<Rightarrow> bool" where
  "isSpace c = (c = CHR '' '' \<or> c = CHR 0x09 \<or> c = CHR 0x0D \<or> c = CHR 0x0A)"

lemma emit_shorter:
  "emit bs r = Some (t, rest) \<Longrightarrow> \<exists>t'. r = Some (t', rest)"
  by (cases r) (auto simp: emit_def)

lemma unquote_shorter: "unquote s = Some (t, rest) \<Longrightarrow> length rest \<le> length s"
proof (induction s arbitrary: t rest rule: unquote.induct)
  case 1
  then show ?case by simp
next
  case (2 c cs)
  show ?case
  proof (cases "c = CHR 0x22")
    case True
    with "2.prems" show ?thesis by simp
  next
    case notq: False
    show ?thesis
    proof (cases "c = CHR 0x5C")
      case True
      then show ?thesis
        using "2.prems" notq "2.IH"(1-5)
        by (fastforce split: list.splits option.splits if_splits dest!: emit_shorter
            simp del: utf8_DecodeRune.simps)
    next
      case False
      then show ?thesis
        using "2.prems" notq "2.IH"(6-7)
        by (fastforce split: list.splits option.splits if_splits prod.splits
            dest!: emit_shorter simp del: utf8_DecodeRune.simps)
    qed
  qed
qed


lemma scan_number_shorter: "scan_number s = Some (t, rest) \<Longrightarrow> length rest < length s"
proof -
  have dw: "length (dropWhile is_digit xs) \<le> length xs" for xs
    by (simp add: length_dropWhile_le)
  have i: "scan_int a = Some (x, b) \<Longrightarrow> length b < length a" for a x b
    using dw by (auto simp: scan_int_def split: list.splits if_splits intro: le_imp_less_Suc)
  have f: "scan_frac a = Some (x, b) \<Longrightarrow> length b \<le> length a" for a x b
    using dw by (auto simp: scan_frac_def split: list.splits if_splits intro: le_SucI)
  have sg: "scan_sign a = (x, b) \<Longrightarrow> length b \<le> length a" for a x b
    by (auto simp: scan_sign_def split: list.splits if_splits)
  have e: "scan_exp a = Some (x, b) \<Longrightarrow> length b \<le> length a" for a x b
  proof -
    assume h: "scan_exp a = Some (x, b)"
    show ?thesis
    proof (cases a)
      case Nil
      with h show ?thesis by (simp add: scan_exp_def)
    next
      case (Cons c cs)
      obtain s1 ds where sd: "scan_sign cs = (s1, ds)" by (cases "scan_sign cs")
      from sg [OF sd] dw [of ds] have "length (dropWhile is_digit ds) \<le> length cs"
        by (rule_tac order_trans)
      with h Cons sd show ?thesis
        by (auto simp: scan_exp_def split: if_splits)
    qed
  qed
  assume h: "scan_number s = Some (t, rest)"
  then show ?thesis
    by (auto simp: scan_number_def split: list.splits if_splits option.splits prod.splits
        dest!: i f e)
qed

lemma strip_prefix_Some: "strip_prefix p s = Some rest \<Longrightarrow> s = p @ rest"
  by (induction p s rule: strip_prefix.induct) (auto split: if_splits)

lemma scan_literal_shorter: "scan_literal s = Some (v, rest) \<Longrightarrow> length rest < length s"
  by (auto simp: scan_literal_def split: option.splits dest!: strip_prefix_Some)

lemma scan_scalar_shorter: "scan_scalar s = Some (v, rest) \<Longrightarrow> length rest < length s"
proof (cases s)
  case Nil
  assume "scan_scalar s = Some (v, rest)"
  with Nil show ?thesis by (simp add: scan_scalar_def)
next
  case (Cons c cs)
  assume h: "scan_scalar s = Some (v, rest)"
  consider (str) "c = CHR 0x22" | (num) "c \<noteq> CHR 0x22" "c = CHR ''-'' \<or> is_digit c"
    | (lit) "c \<noteq> CHR 0x22" "\<not> (c = CHR ''-'' \<or> is_digit c)" by blast
  then show ?thesis
  proof cases
    case str
    with h Cons obtain t where "unquote cs = Some (t, rest)"
      by (cases "unquote cs") (auto simp: scan_scalar_def)
    from unquote_shorter [OF this] Cons show ?thesis by simp
  next
    case num
    with h Cons obtain t where "scan_number s = Some (t, rest)"
      by (cases "scan_number s") (auto simp: scan_scalar_def)
    then show ?thesis by (rule scan_number_shorter)
  next
    case lit
    with h Cons have "scan_literal s = Some (v, rest)"
      by (simp add: scan_scalar_def)
    then show ?thesis by (rule scan_literal_shorter)
  qed
qed

lemma next_token_shorter: "next_token s = Some (tok, rest) \<Longrightarrow> length rest < length s"
  by (cases s) (auto simp: next_token_def split: option.splits dest!: scan_scalar_shorter)

text \<open>
  The scanner over a whole text: white space between tokens is skipped; at the end of
  the text exactly one value must be complete.
\<close>

function scan :: "string \<Rightarrow> scanner \<Rightarrow> jtext option" where
  "scan [] sc = (case sc of EndTop v \<Rightarrow> Some v | _ \<Rightarrow> None)"
| "scan (c # cs) sc =
     (if isSpace c then scan cs sc
      else
        (case next_token (c # cs) of
           None \<Rightarrow> None
         | Some (tok, rest) \<Rightarrow>
             (case step sc tok of
                None \<Rightarrow> None
              | Some sc' \<Rightarrow> scan rest sc')))"
  by pat_completeness auto
termination
proof (relation "measure (\<lambda>(s, sc). length s)")
  show "wf (measure (\<lambda>(s, sc). length s))" by simp
qed (auto dest: next_token_shorter)

definition json_parse :: "string \<Rightarrow> jtext option" where
  "json_parse s = scan s (Scanning [] BeginValue)"

section \<open>The package \<open>encoding/json\<close>: decoding\<close>

text \<open>
  Decoding needs \<open>strconv.ParseFloat\<close> and, to print a float64 again, the shortest
  decimal text that identifies it. Floating point is not modelled: the two together are
  the parameter \<open>parseFloat\<close>, from a number literal to the text \<open>encoding/json\<close>
  prints for the float64 the literal denotes, \<open>None\<close> when the literal is out of the
  range of float64.
\<close>

type_synonym parse_float = "string \<Rightarrow> string option"

definition mapassign :: "gomap \<Rightarrow> string \<times> iface \<Rightarrow> gomap" where
  "mapassign m kv = AList.update (fst kv) (snd kv) m"

definition those_members :: "(string \<times> iface option) list \<Rightarrow> (string \<times> iface) list option" where
  "those_members ms = those (map (\<lambda>(k, ov). map_option (Pair k) ov) ms)"

text \<open>
  \<open>valueInterface\<close>: the value decoded into an \<open>interface{}\<close>. Of two members with
  the same key the later one stays. A number out of range is the only error.
\<close>

primrec valueInterface :: "parse_float \<Rightarrow> jtext \<Rightarrow> iface option" where
  "valueInterface parseFloat JNull = Some VNil"
| "valueInterface parseFloat (JBool b) = Some (VBool b)"
| "valueInterface parseFloat (JNumber t) = map_option VFloat64 (parseFloat t)"
| "valueInterface parseFloat (JString s) = Some (VString s)"
| "valueInterface parseFloat (JArray es) =
     map_option VSlice (those (map (valueInterface parseFloat) es))"
| "valueInterface parseFloat (JObject ms) =
     map_option (\<lambda>kvs. VMap (foldl mapassign [] kvs))
       (those_members (map (map_prod id (valueInterface parseFloat)) ms))"

text \<open>
  \<open>json.Unmarshal(data, &m)\<close> for \<open>m\<close> of type \<open>map[string]interface{}\<close> holding
  \<open>target\<close>: the error, or the map \<open>m\<close> holds afterwards. The text is checked as a
  whole first. An object is decoded into the map (made if \<open>m\<close> was nil); \<open>null\<close> sets
  \<open>m\<close> to nil and is no error; an array, a string, a number or a boolean is an
  \<open>UnmarshalTypeError\<close>.
\<close>

definition json_Unmarshal :: "parse_float \<Rightarrow> string \<Rightarrow> gomap option \<Rightarrow> error + gomap option" where
  "json_Unmarshal parseFloat data target =
     (case json_parse data of
        None \<Rightarrow> Inl SyntaxError
      | Some JNull \<Rightarrow> Inr None
      | Some (JBool b) \<Rightarrow> Inl (UnmarshalTypeError ''bool'')
      | Some (JNumber t) \<Rightarrow> Inl (UnmarshalTypeError ''number'')
      | Some (JString s) \<Rightarrow> Inl (UnmarshalTypeError ''string'')
      | Some (JArray es) \<Rightarrow> Inl (UnmarshalTypeError ''array'')
      | Some (JObject ms) \<Rightarrow>
          (case those_members (map (map_prod id (valueInterface parseFloat)) ms) of
             None \<Rightarrow> Inl (UnmarshalTypeError ''number'')
           | Some kvs \<Rightarrow>
               Inr (Some (foldl mapassign (case target of None \<Rightarrow> [] | Some m \<Rightarrow> m) kvs))))"

text \<open>
  An instance of \<open>parseFloat\<close> for closed examples. On an integer literal of at most
  15 digits it is what Go does: the float64 is that integer, and \<open>encoding/json\<close>
  prints it with the same digits. Every other literal is outside what this instance
  covers, and it answers \<open>None\<close> there.
\<close>

definition parseFloat_int15 :: parse_float where
  "parseFloat_int15 t =
     (case scan_int (case t of [] \<Rightarrow> [] | c # cs \<Rightarrow> if c = CHR ''-'' then cs else t) of
        Some (i, []) \<Rightarrow> if length i \<le> 15 then Some t else None
      | _ \<Rightarrow> None)"

section \<open>ConfigNormalizer\<close>

text \<open>
  \<open>validateDataJSON\<close> and \<open>normalizeDataJSON\<close> are the schema's \<open>ValidateFunc\<close>
  and \<open>StateFunc\<close> of the string attribute \<open>config_json\<close>: the framework passes
  them a string, and the assertion \<open>configI.(string)\<close> holds. Log output is not
  modelled.
\<close>

definition validateDataJSON :: "parse_float \<Rightarrow> string \<Rightarrow> string \<Rightarrow> string list \<times> error list" where
  "validateDataJSON parseFloat configI k =
     (let dataJSON = configI;
          dataMap = Some []
      in case json_Unmarshal parseFloat dataJSON dataMap of
           Inl err \<Rightarrow> ([], [err])
         | Inr dataMap' \<Rightarrow> ([], []))"

definition normalizeDataJSON :: "parse_float \<Rightarrow> string \<Rightarrow> string" where
  "normalizeDataJSON parseFloat configI =
     (let dataJSON = configI;
          dataMap = Some []
      in case json_Unmarshal parseFloat dataJSON dataMap of
           Inl err \<Rightarrow> []
         | Inr dataMap' \<Rightarrow>
             (case json_Marshal dataMap' of
                Inl err \<Rightarrow> dataJSON
              | Inr ret \<Rightarrow> ret))"

section \<open>DriftFilter\<close>

text \<open>
  Modelled from the spec: the helper \<open>contains\<close> and the table
  \<open>computedPluginProperties\<close> are not among the source files. The spec's
  ComputedFieldRegistry is "an immutable set of field names" that the filter takes "by
  parameter": the table is the parameter \<open>computedPluginProperties\<close> of the two
  filters, and \<open>contains\<close> says whether a name is in it.
\<close>

definition contains :: "string list \<Rightarrow> string \<Rightarrow> bool" where
  "contains slice s = (s \<in> set slice)"

text \<open>
  The loop that copies the entries to keep into \<open>marshalledData\<close>, over the entries
  of \<open>data\<close> in the order the \<open>range\<close> visits them.
\<close>

fun copy_kept :: "string list \<Rightarrow> gomap \<Rightarrow> gomap \<Rightarrow> gomap" where
  "copy_kept computedPluginProperties [] marshalledData = marshalledData"
| "copy_kept computedPluginProperties ((key, val) # rest) marshalledData =
     copy_kept computedPluginProperties rest
       (if \<not> contains computedPluginProperties key
        then mapassign marshalledData (key, val)
        else marshalledData)"

definition entries_of :: "gomap option \<Rightarrow> gomap" where
  "entries_of m = (case m of None \<Rightarrow> [] | Some entries \<Rightarrow> entries)"

definition pluginConfigJsonToString :: "string list \<Rightarrow> gomap option \<Rightarrow> string" where
  "pluginConfigJsonToString computedPluginProperties data =
     (let marshalledData = copy_kept computedPluginProperties (entries_of data) []
      in case json_Marshal (Some marshalledData) of
           Inl err \<Rightarrow> []
         | Inr rawJson \<Rightarrow> rawJson)"

definition consumerPluginConfigJsonToString ::
  "parse_float \<Rightarrow> string list \<Rightarrow> string \<Rightarrow> error + string" where
  "consumerPluginConfigJsonToString parseFloat computedPluginProperties body =
     (case json_Unmarshal parseFloat body (Some []) of
        Inl err \<Rightarrow> Inl err
      | Inr data \<Rightarrow>
          (let marshalledData = copy_kept computedPluginProperties (entries_of data) []
           in case json_Marshal (Some marshalledData) of
                Inl err \<Rightarrow> Inr []
              | Inr rawJson \<Rightarrow> Inr rawJson))"

section \<open>ConfigEncoder, scoped variant\<close>

text \<open>
  The loop of \<open>generatePluginConfig\<close> over the entries of the map, in the order the
  \<open>range\<close> visits them; \<open>buffer\<close> is what has been written so far. The type
  assertion \<open>value.(string)\<close> panics on a value that is not a string.
\<close>

fun writePairs :: "nat \<Rightarrow> nat \<Rightarrow> gomap \<Rightarrow> string \<Rightarrow> string go_result" where
  "writePairs mapSize position [] buffer = Ok buffer"
| "writePairs mapSize position ((key, val) # rest) buffer =
     (case val of
        VString s \<Rightarrow>
          writePairs mapSize (position + 1) rest
            (buffer @ key @ ''='' @ s @
               (if mapSize > 1 \<and> position \<noteq> mapSize then ''&'' else []))
      | _ \<Rightarrow> Panic)"

definition generatePluginConfig :: "gomap option \<Rightarrow> string \<Rightarrow> string go_result" where
  "generatePluginConfig configMap configJSON =
     (if configMap \<noteq> None \<and> configJSON \<noteq> [] then Err ConflictingConfig
      else (case configMap of
              Some m \<Rightarrow> writePairs (length m) 1 m []
            | None \<Rightarrow> Ok configJSON))"

section \<open>The remote admin API\<close>

text \<open>
  \<open>gokong.KongAdminClient\<close> is an external collaborator. The client records every
  request it sends; what the gateway answers is a function of the requests sent
  before and of the request itself.
\<close>

record ConsumerPluginConfig =
  cpc_Id :: string
  cpc_Body :: string

record Plugin =
  plugin_Id :: string
  plugin_Name :: string
  plugin_ApiId :: string
  plugin_ServiceId :: string
  plugin_RouteId :: string
  plugin_ConsumerId :: string
  plugin_Config :: "gomap option"

datatype request =
    CreatePluginConfig string string string
  | GetPluginConfig string string string
  | DeletePluginConfig string string string
  | GetById string

record KongAdminClient =
  sent :: "request list"
  answer_CreatePluginConfig ::
    "request list \<Rightarrow> string \<Rightarrow> string \<Rightarrow> string \<Rightarrow> error + ConsumerPluginConfig option"
  answer_GetPluginConfig ::
    "request list \<Rightarrow> string \<Rightarrow> string \<Rightarrow> string \<Rightarrow> error + ConsumerPluginConfig option"
  answer_DeletePluginConfig ::
    "request list \<Rightarrow> string \<Rightarrow> string \<Rightarrow> string \<Rightarrow> error option"
  answer_GetById :: "request list \<Rightarrow> string \<Rightarrow> error + Plugin option"

definition Consumers_CreatePluginConfig ::
  "KongAdminClient \<Rightarrow> string \<Rightarrow> string \<Rightarrow> string
     \<Rightarrow> KongAdminClient \<times> (error + ConsumerPluginConfig option)" where
  "Consumers_CreatePluginConfig meta c p config =
     (meta\<lparr>sent := sent meta @ [CreatePluginConfig c p config]\<rparr>,
      answer_CreatePluginConfig meta (sent meta) c p config)"

definition Consumers_GetPluginConfig ::
  "KongAdminClient \<Rightarrow> string \<Rightarrow> string \<Rightarrow> string
     \<Rightarrow> KongAdminClient \<times> (error + ConsumerPluginConfig option)" where
  "Consumers_GetPluginConfig meta c p i =
     (meta\<lparr>sent := sent meta @ [GetPluginConfig c p i]\<rparr>,
      answer_GetPluginConfig meta (sent meta) c p i)"

definition Consumers_DeletePluginConfig ::
  "KongAdminClient \<Rightarrow> string \<Rightarrow> string \<Rightarrow> string \<Rightarrow> KongAdminClient \<times> error option" where
  "Consumers_DeletePluginConfig meta c p i =
     (meta\<lparr>sent := sent meta @ [DeletePluginConfig c p i]\<rparr>,
      answer_DeletePluginConfig meta (sent meta) c p i)"

definition Plugins_GetById ::
  "KongAdminClient \<Rightarrow> string \<Rightarrow> KongAdminClient \<times> (error + Plugin option)" where
  "Plugins_GetById meta i =
     (meta\<lparr>sent := sent meta @ [GetById i]\<rparr>, answer_GetById meta (sent meta) i)"

section \<open>Values for closed examples\<close>

text \<open>A gateway that knows no object and reports no error, and a client that has sent nothing.\<close>

definition empty_gateway :: KongAdminClient where
  "empty_gateway =
     \<lparr>sent = [],
      answer_CreatePluginConfig = (\<lambda>h c p config. Inr None),
      answer_GetPluginConfig = (\<lambda>h c p i. Inr None),
      answer_DeletePluginConfig = (\<lambda>h c p i. None),
      answer_GetById = (\<lambda>h i. Inr None)\<rparr>"

definition resource_of :: "string \<Rightarrow> (string \<times> iface) list \<Rightarrow> ResourceData" where
  "resource_of ident attrs = \<lparr>rd_Id = ident, rd_attrs = map_of attrs\<rparr>"

section \<open>The scoped attachment: create, read, delete\<close>

text \<open>
  Each operation takes the resource data and the client and gives both back as it
  leaves them, with what it returns: \<open>None\<close> is Go's nil error.
\<close>

definition resourceKongConsumerPluginConfigRead ::
  "parse_float \<Rightarrow> string list \<Rightarrow> ResourceData \<Rightarrow> KongAdminClient
     \<Rightarrow> ResourceData \<times> KongAdminClient \<times> error option" where
  "resourceKongConsumerPluginConfigRead parseFloat computedPluginProperties d meta =
     (case splitIdIntoFields (rd_Id d) of
        Inl err \<Rightarrow> (d, meta, Some err)
      | Inr idFields \<Rightarrow>
          (case Consumers_GetPluginConfig meta (consumerId idFields) (pluginName idFields)
                  (id_f idFields) of
             (meta', Inl err) \<Rightarrow>
               (d, meta', Some (CouldNotFindConsumerPluginConfig (rd_Id d) err))
           | (meta', Inr None) \<Rightarrow> (d, meta', Some CouldNotConfigureConsumerPlugin)
           | (meta', Inr (Some consumerPluginConfig)) \<Rightarrow>
               (let d1 = Set_attr d ''consumer_id'' (VString (consumerId idFields));
                    d2 = Set_attr d1 ''plugin_name'' (VString (pluginName idFields))
                in case consumerPluginConfigJsonToString parseFloat computedPluginProperties
                          (cpc_Body consumerPluginConfig) of
                     Inl err \<Rightarrow>
                       (d2, meta', Some (CouldNotReadConsumerPluginConfigBody (rd_Id d) err))
                   | Inr upstreamJson \<Rightarrow>
                       (Set_attr d2 ''config_json'' (VString upstreamJson), meta', None))))"

definition resourceKongConsumerPluginConfigCreate ::
  "parse_float \<Rightarrow> string list \<Rightarrow> ResourceData \<Rightarrow> KongAdminClient
     \<Rightarrow> ResourceData \<times> KongAdminClient \<times> unit go_result" where
  "resourceKongConsumerPluginConfigCreate parseFloat computedPluginProperties d meta =
     (let consumer = readStringFromResource d ''consumer_id'';
          plugin = readStringFromResource d ''plugin_name''
      in case generatePluginConfig (readMapFromResource d ''config'')
                (readStringFromResource d ''config_json'') of
           Panic \<Rightarrow> (d, meta, Panic)
         | Err err \<Rightarrow> (d, meta, Err (ErrorConfiguringPlugin err))
         | Ok config \<Rightarrow>
             (case Consumers_CreatePluginConfig meta consumer plugin config of
                (meta', Inl err) \<Rightarrow> (d, meta', Err (FailedToCreateConsumerPluginConfig err))
              | (meta', Inr consumerPluginConfig) \<Rightarrow>
                  (let d' = (case consumerPluginConfig of
                               None \<Rightarrow> SetId d []
                             | Some c \<Rightarrow> SetId d (buildId consumer plugin (cpc_Id c)))
                   in case resourceKongConsumerPluginConfigRead parseFloat
                             computedPluginProperties d' meta' of
                        (d'', meta'', None) \<Rightarrow> (d'', meta'', Ok ())
                      | (d'', meta'', Some err) \<Rightarrow> (d'', meta'', Err err))))"

definition resourceKongConsumerPluginConfigDelete ::
  "ResourceData \<Rightarrow> KongAdminClient \<Rightarrow> ResourceData \<times> KongAdminClient \<times> error option" where
  "resourceKongConsumerPluginConfigDelete d meta =
     (case splitIdIntoFields (rd_Id d) of
        Inl err \<Rightarrow> (d, meta, Some err)
      | Inr idFields \<Rightarrow>
          (case Consumers_DeletePluginConfig meta (consumerId idFields) (pluginName idFields)
                  (id_f idFields) of
             (meta', Some err) \<Rightarrow> (d, meta', Some (CouldNotDeleteConsumerPluginConfig err))
           | (meta', None) \<Rightarrow> (d, meta', None)))"

section \<open>The primary attachment: read, and the request of create and update\<close>

definition resourceKongPluginRead ::
  "string list \<Rightarrow> ResourceData \<Rightarrow> KongAdminClient
     \<Rightarrow> ResourceData \<times> KongAdminClient \<times> error option" where
  "resourceKongPluginRead computedPluginProperties d meta =
     (case Plugins_GetById meta (rd_Id d) of
        (meta', Inl err) \<Rightarrow> (d, meta', Some (CouldNotFindPlugin err))
      | (meta', Inr None) \<Rightarrow> (SetId d [], meta', None)
      | (meta', Inr (Some plugin)) \<Rightarrow>
          (let d1 = Set_attr d ''name'' (VString (plugin_Name plugin));
               d2 = Set_attr d1 ''api_id'' (VString (plugin_ApiId plugin));
               d3 = Set_attr d2 ''service_id'' (VString (plugin_ServiceId plugin));
               d4 = Set_attr d3 ''route_id'' (VString (plugin_RouteId plugin));
               d5 = Set_attr d4 ''consumer_id'' (VString (plugin_ConsumerId plugin));
               upstreamJson = pluginConfigJsonToString computedPluginProperties
                                (plugin_Config plugin)
           in (Set_attr d5 ''config_json'' (VString upstreamJson), meta', None)))"

text \<open>\<open>gokong.PluginRequest\<close>.\<close>

record PluginRequest =
  pr_Name :: string
  pr_ApiId :: string
  pr_ConsumerId :: string
  pr_ServiceId :: string
  pr_RouteId :: string
  pr_Config :: "gomap option"

text \<open>
  The request and the error are returned together. In the attribute \<open>config_json\<close>
  the assertion \<open>data.(string)\<close> holds by the schema; the model reads any other value
  as the empty text.
\<close>

definition createKongPluginRequestFromResourceData ::
  "parse_float \<Rightarrow> ResourceData \<Rightarrow> PluginRequest \<times> error option" where
  "createKongPluginRequestFromResourceData parseFloat d =
     (let pluginRequest =
            \<lparr>pr_Name = readStringFromResource d ''name'',
             pr_ApiId = readStringFromResource d ''api_id'',
             pr_ConsumerId = readStringFromResource d ''consumer_id'',
             pr_ServiceId = readStringFromResource d ''service_id'',
             pr_RouteId = readStringFromResource d ''route_id'',
             pr_Config = readMapFromResource d ''config''\<rparr>
      in if pr_Config pluginRequest = None then
           (case GetOk d ''config_json'' of
              (data, True) \<Rightarrow>
                (case json_Unmarshal parseFloat (case data of VString s \<Rightarrow> s | _ \<Rightarrow> []) None of
                   Inl err \<Rightarrow> (pluginRequest, Some (FailedToUnmarshalConfigJson err))
                 | Inr configJson \<Rightarrow> (pluginRequest\<lparr>pr_Config := configJson\<rparr>, None))
            | (data, False) \<Rightarrow> (pluginRequest, None))
         else (pluginRequest, None))"

section \<open>Notions for the proof that normalizing twice changes nothing\<close>


text \<open>
  The valid encodings of one code point in UTF-8, by the number of bytes, and the byte
  strings made of such encodings.
\<close>

inductive utf8_seq :: "nat \<Rightarrow> string \<Rightarrow> bool" where
  seq1: "r < 128 \<Longrightarrow> utf8_seq r [char_of r]"
| seq2: "2 \<le> x \<Longrightarrow> x < 32 \<Longrightarrow> y < 64 \<Longrightarrow>
           utf8_seq (x * 64 + y) [char_of (192 + x), char_of (128 + y)]"
| seq3: "x < 16 \<Longrightarrow> y < 64 \<Longrightarrow> z < 64 \<Longrightarrow> (x = 0 \<longrightarrow> 32 \<le> y) \<Longrightarrow> (x = 13 \<longrightarrow> y < 32) \<Longrightarrow>
           utf8_seq (x * 4096 + y * 64 + z)
             [char_of (224 + x), char_of (128 + y), char_of (128 + z)]"
| seq4: "x \<le> 4 \<Longrightarrow> y < 64 \<Longrightarrow> z < 64 \<Longrightarrow> u < 64 \<Longrightarrow> (x = 0 \<longrightarrow> 16 \<le> y) \<Longrightarrow> (x = 4 \<longrightarrow> y < 16) \<Longrightarrow>
           utf8_seq (x * 262144 + y * 4096 + z * 64 + u)
             [char_of (240 + x), char_of (128 + y), char_of (128 + z), char_of (128 + u)]"

inductive valid_utf8 :: "string \<Rightarrow> bool" where
  valid_Nil: "valid_utf8 []"
| valid_seq: "utf8_seq r bs \<Longrightarrow> valid_utf8 t \<Longrightarrow> valid_utf8 (bs @ t)"


















section \<open>Properties of the identifier codec\<close>

lemma strings_Split_not_Nil: "strings_Split s sep \<noteq> []"
  by (induction s) (auto split: list.splits)

lemma strings_Split_no_sep: "sep \<notin> set s \<Longrightarrow> strings_Split s sep = [s]"
  by (induction s) auto

lemma strings_Split_append:
  "sep \<notin> set a \<Longrightarrow> strings_Split (a @ sep # s) sep = a # strings_Split s sep"
  by (induction a) auto

lemma length_strings_Split:
  "length (strings_Split s sep) = Suc (count_list s sep)"
  by (induction s) (auto split: list.splits simp: strings_Split_not_Nil)

text \<open>
  C2. A triple of strings none of which contains \<open>|\<close> is recovered exactly by parsing
  the identifier built from it.
\<close>

theorem splitIdIntoFields_buildId:
  assumes "CHR ''|'' \<notin> set a" and "CHR ''|'' \<notin> set b" and "CHR ''|'' \<notin> set c"
  shows "splitIdIntoFields (buildId a b c) =
           Inr \<lparr>consumerId = a, pluginName = b, id_f = c\<rparr>"
proof -
  have "strings_Split (buildId a b c) (CHR ''|'') = [a, b, c]"
    using assms
    by (simp add: buildId_def strings_Split_append strings_Split_no_sep)
  then show ?thesis
    by (simp add: splitIdIntoFields_def)
qed

theorem splitIdIntoFields_buildId_witness:
  "CHR ''|'' \<notin> set ''c1'' \<and> CHR ''|'' \<notin> set ''rate-limiting'' \<and> CHR ''|'' \<notin> set ''abc''
   \<and> splitIdIntoFields (buildId ''c1'' ''rate-limiting'' ''abc'') =
       Inr \<lparr>consumerId = ''c1'', pluginName = ''rate-limiting'', id_f = ''abc''\<rparr>"
  using splitIdIntoFields_buildId [of "''c1''" "''rate-limiting''" "''abc''"]
  by simp

text \<open>
  C3. Parsing succeeds exactly when splitting on \<open>|\<close> gives three parts, that is when
  the identifier holds exactly two \<open>|\<close>; the parts are then returned as they are, empty
  or not, and every other identifier is refused with MalformedIdentifier.
\<close>

theorem splitIdIntoFields_iff_three_parts:
  "((\<exists>f. splitIdIntoFields ident = Inr f) = (length (strings_Split ident (CHR ''|'')) = 3))
   \<and> ((length (strings_Split ident (CHR ''|'')) = 3) = (count_list ident (CHR ''|'') = 2))
   \<and> (splitIdIntoFields ident =
        (if length (strings_Split ident (CHR ''|'')) = 3
         then Inr \<lparr>consumerId = strings_Split ident (CHR ''|'') ! 0,
                   pluginName = strings_Split ident (CHR ''|'') ! 1,
                   id_f = strings_Split ident (CHR ''|'') ! 2\<rparr>
         else Inl (MalformedIdentifier ident)))
   \<and> splitIdIntoFields ''||'' = Inr \<lparr>consumerId = '''', pluginName = '''', id_f = ''''\<rparr>"
  by (simp add: splitIdIntoFields_def length_strings_Split Let_def)

section \<open>Properties of the scoped encoder\<close>

lemma writePairs_strings:
  assumes "0 < position" and "mapSize + 1 = position + length kvs"
  shows "writePairs mapSize position (map (\<lambda>(k, s). (k, VString s)) kvs) buffer =
           Ok (buffer @ join ''&'' (map (\<lambda>(k, s). k @ ''='' @ s) kvs))"
  using assms
proof (induction kvs arbitrary: position buffer)
  case Nil
  then show ?case by simp
next
  case (Cons kv kvs)
  obtain k s where kv: "kv = (k, s)" by (cases kv)
  show ?case
  proof (cases kvs)
    case Nil
    with Cons.prems kv show ?thesis by simp
  next
    case (Cons kv' kvs')
    have more: "1 < mapSize" "position \<noteq> mapSize"
      using Cons.prems Cons by simp_all
    have "writePairs mapSize (position + 1) (map (\<lambda>(k, s). (k, VString s)) kvs)
            (buffer @ k @ ''='' @ s @ ''&'') =
          Ok ((buffer @ k @ ''='' @ s @ ''&'') @ join ''&'' (map (\<lambda>(k, s). k @ ''='' @ s) kvs))"
      using Cons.prems by (intro Cons.IH) simp_all
    with more kv Cons show ?thesis by simp
  qed
qed

text \<open>
  C1. With a non-empty mapping and a non-empty blob the scoped encoder fails with
  ConflictingConfig, and create returns that error with the resource data and the
  client as they were: no request has been sent.
\<close>

theorem generatePluginConfig_conflict:
  assumes "M \<noteq> []" and "J \<noteq> []"
  shows "generatePluginConfig (Some M) J = Err ConflictingConfig
         \<and> (rd_attrs d ''config'' = Some (VMap M) \<longrightarrow>
            rd_attrs d ''config_json'' = Some (VString J) \<longrightarrow>
              resourceKongConsumerPluginConfigCreate parseFloat computedPluginProperties d meta =
                (d, meta, Err (ErrorConfiguringPlugin ConflictingConfig)))"
  using assms
  by (simp add: generatePluginConfig_def resourceKongConsumerPluginConfigCreate_def
      readMapFromResource_def readStringFromResource_def GetOk_def)

theorem generatePluginConfig_conflict_witness:
  "[(''minute'', VString ''10'')] \<noteq> [] \<and> ''{x}'' \<noteq> []
   \<and> generatePluginConfig (Some [(''minute'', VString ''10'')]) ''{x}'' = Err ConflictingConfig
   \<and> resourceKongConsumerPluginConfigCreate parseFloat_int15 [''id'']
         (resource_of ''''
            [(''config'', VMap [(''minute'', VString ''10'')]), (''config_json'', VString ''{x}'')])
         empty_gateway =
       (resource_of ''''
          [(''config'', VMap [(''minute'', VString ''10'')]), (''config_json'', VString ''{x}'')],
        empty_gateway, Err (ErrorConfiguringPlugin ConflictingConfig))"
  using generatePluginConfig_conflict [of "[(''minute'', VString ''10'')]" "''{x}''"
      "resource_of '''' [(''config'', VMap [(''minute'', VString ''10'')]),
                         (''config_json'', VString ''{x}'')]"
      parseFloat_int15 "[''id'']" empty_gateway]
  by (simp add: resource_of_def)

text \<open>
  C7. From a mapping whose values are strings, and no blob, the scoped encoder writes
  one \<open>key=value\<close> segment per entry, in the order the entries are visited, with \<open>&\<close>
  between two segments and nothing after the last; keys and values are written as they
  are. Without a mapping the blob is returned unchanged.
\<close>

theorem generatePluginConfig_pairs:
  "generatePluginConfig (Some (map (\<lambda>(k, s). (k, VString s)) kvs)) [] =
     Ok (join ''&'' (map (\<lambda>(k, s). k @ ''='' @ s) kvs))
   \<and> generatePluginConfig None J = Ok J
   \<and> generatePluginConfig (Some [(''minute'', VString ''10'')]) [] = Ok ''minute=10''
   \<and> generatePluginConfig (Some [(''a'', VString ''1 2''), (''b'', VString ''x&y=%'')]) [] =
       Ok ''a=1 2&b=x&y=%''"
proof -
  have "writePairs (length kvs) 1 (map (\<lambda>(k, s). (k, VString s)) kvs) [] =
          Ok ([] @ join ''&'' (map (\<lambda>(k, s). k @ ''='' @ s) kvs))"
    by (rule writePairs_strings) simp_all
  then show ?thesis
    by (simp add: generatePluginConfig_def)
qed

section \<open>Properties of read\<close>

text \<open>
  C9. When the gateway answers a read with no object and no error, the primary
  attachment clears the local identity and returns no error, and the scoped attachment
  returns an error and leaves the resource data, the local identity included, as it was.
\<close>

theorem read_missing_remote_object:
  "(answer_GetById meta (sent meta) (rd_Id d) = Inr None \<longrightarrow>
      resourceKongPluginRead computedPluginProperties d meta =
        (SetId d [], meta\<lparr>sent := sent meta @ [GetById (rd_Id d)]\<rparr>, None))
   \<and> (splitIdIntoFields (rd_Id d) = Inr f \<longrightarrow>
      answer_GetPluginConfig meta (sent meta) (consumerId f) (pluginName f) (id_f f) = Inr None \<longrightarrow>
      resourceKongConsumerPluginConfigRead parseFloat computedPluginProperties d meta =
        (d, meta\<lparr>sent := sent meta @ [GetPluginConfig (consumerId f) (pluginName f) (id_f f)]\<rparr>,
         Some CouldNotConfigureConsumerPlugin))"
  by (simp add: resourceKongPluginRead_def Plugins_GetById_def
      resourceKongConsumerPluginConfigRead_def Consumers_GetPluginConfig_def)

theorem read_missing_remote_object_witness:
  "answer_GetById empty_gateway (sent empty_gateway) (rd_Id (resource_of ''c1|acl|7'' [])) = Inr None
   \<and> rd_Id (fst (resourceKongPluginRead [''id''] (resource_of ''c1|acl|7'' []) empty_gateway)) = []
   \<and> snd (snd (resourceKongPluginRead [''id''] (resource_of ''c1|acl|7'' []) empty_gateway)) = None
   \<and> splitIdIntoFields (rd_Id (resource_of ''c1|acl|7'' [])) =
       Inr \<lparr>consumerId = ''c1'', pluginName = ''acl'', id_f = ''7''\<rparr>
   \<and> answer_GetPluginConfig empty_gateway (sent empty_gateway) ''c1'' ''acl'' ''7'' = Inr None
   \<and> rd_Id (fst (resourceKongConsumerPluginConfigRead parseFloat_int15 [''id'']
                    (resource_of ''c1|acl|7'' []) empty_gateway)) = ''c1|acl|7''
   \<and> snd (snd (resourceKongConsumerPluginConfigRead parseFloat_int15 [''id'']
                    (resource_of ''c1|acl|7'' []) empty_gateway)) =
       Some CouldNotConfigureConsumerPlugin"
proof -
  have s: "splitIdIntoFields (rd_Id (resource_of ''c1|acl|7'' [])) =
             Inr \<lparr>consumerId = ''c1'', pluginName = ''acl'', id_f = ''7''\<rparr>"
    by (simp add: resource_of_def splitIdIntoFields_def)
  have g: "answer_GetById empty_gateway (sent empty_gateway) (rd_Id (resource_of ''c1|acl|7'' [])) = Inr None"
    "answer_GetPluginConfig empty_gateway (sent empty_gateway) ''c1'' ''acl'' ''7'' = Inr None"
    by (simp_all add: empty_gateway_def)
  show ?thesis
    using read_missing_remote_object [of empty_gateway "resource_of ''c1|acl|7'' []" "[''id'']"
        "\<lparr>consumerId = ''c1'', pluginName = ''acl'', id_f = ''7''\<rparr>" parseFloat_int15] s g
    by (simp add: SetId_def resource_of_def)
qed

section \<open>Properties of the maps and of the drift filter\<close>

lemma distinct_mapassign:
  "distinct (map fst m) \<Longrightarrow> distinct (map fst (mapassign m kv))"
  by (simp add: mapassign_def distinct_update)

lemma map_of_mapassign: "map_of (mapassign m kv) = (map_of m)(fst kv \<mapsto> snd kv)"
  by (simp add: mapassign_def update_conv')


lemma distinct_copy_kept:
  "distinct (map fst acc) \<Longrightarrow> distinct (map fst (copy_kept E R acc))"
  by (induction R arbitrary: acc) (auto simp: distinct_mapassign)

lemma map_of_copy_kept:
  "distinct (map fst R) \<Longrightarrow>
     map_of (copy_kept E R acc) = map_of acc ++ (map_of R |` (- set E))"
proof (induction R arbitrary: acc)
  case Nil
  then show ?case by simp
next
  case (Cons kv R)
  obtain k v where kv: "kv = (k, v)" by (cases kv)
  from Cons.prems kv have fresh: "k \<notin> fst ` set R" and d: "distinct (map fst R)"
    by auto
  from fresh have nk: "map_of R k = None"
    by (simp add: map_of_eq_None_iff)
  show ?case
  proof (cases "k \<in> set E")
    case True
    have "map_of acc ++ (map_of (kv # R) |` (- set E)) = map_of acc ++ (map_of R |` (- set E))"
      using True kv by (auto simp: restrict_map_def map_add_def fun_eq_iff)
    moreover have "copy_kept E (kv # R) acc = copy_kept E R acc"
      using True kv by (simp add: contains_def)
    ultimately show ?thesis
      using Cons.IH [OF d] by (simp only:)
  next
    case False
    have "map_of acc ++ (map_of (kv # R) |` (- set E)) =
          (map_of acc)(k \<mapsto> v) ++ (map_of R |` (- set E))"
      using False nk kv
      by (auto simp: restrict_map_def map_add_def fun_eq_iff split: option.splits)
    moreover have "copy_kept E (kv # R) acc = copy_kept E R (mapassign acc (k, v))"
      using False kv by (simp add: contains_def)
    moreover have "map_of (mapassign acc (k, v)) = (map_of acc)(k \<mapsto> v)"
      by (simp add: map_of_mapassign)
    ultimately show ?thesis
      using Cons.IH [OF d, of "mapassign acc (k, v)"] by (simp only:)
  qed
qed

text \<open>
  The encoding of a map does not depend on the order of its entries: two lists of
  entries with distinct keys that are the same mapping encode alike.
\<close>

lemma json_encode_VMap_canonical:
  assumes "distinct (map fst m)" and "distinct (map fst m')" and "map_of m = map_of m'"
  shows "json_encode (VMap m) = json_encode (VMap m')"
proof -
  let ?g = "map_prod id json_encode"
  from assms have s: "set m = set m'"
    by (simp add: map_of_inject_set)
  have fst_g: "map fst (map ?g xs) = map fst xs" for xs :: gomap
    by (induction xs) auto
  have dm: "distinct (map fst (map ?g m))" "distinct (map fst (map ?g m'))"
    using assms by (simp_all only: fst_g)
  have inj: "inj_on fst (set (map ?g m))"
    using dm(1) by (simp only: distinct_map)
  have "sort_key fst (map ?g m) = sort_key fst (map ?g m')"
  proof (rule map_sorted_distinct_set_unique [where f = fst])
    show "inj_on fst (set (sort_key fst (map ?g m)) \<union> set (sort_key fst (map ?g m')))"
      using inj s by (simp only: set_sort set_map Un_absorb)
    show "sorted (map fst (sort_key fst (map ?g m)))" by (rule sorted_sort_key)
    show "sorted (map fst (sort_key fst (map ?g m')))" by (rule sorted_sort_key)
    show "distinct (map fst (sort_key fst (map ?g m)))"
      using dm(1) by (simp only: distinct_map set_sort distinct_sort) 
    show "distinct (map fst (sort_key fst (map ?g m')))"
      using dm(2) by (simp only: distinct_map set_sort distinct_sort)
    show "set (sort_key fst (map ?g m)) = set (sort_key fst (map ?g m'))"
      using s by (simp only: set_sort set_map)
  qed
  then show ?thesis by (simp only: json_encode.simps)
qed

text \<open>
  C5. The filter keeps exactly the entries of the remote object whose key is not in the
  table, each with its value, and writes the encoding of that mapping: whatever list of
  entries \<open>F\<close> stands for the filtered mapping, the output is the encoding of \<open>F\<close>.
  This holds for the filter of the primary attachment, on the map the client hands over,
  and for the filter of the scoped attachment, on the map decoded from the body.
\<close>

theorem drift_filter_output:
  assumes "distinct (map fst R)"
    and "distinct (map fst F)"
    and "map_of F = map_of R |` (- set E)"
  shows "map_of (copy_kept E R []) = map_of R |` (- set E)
         \<and> dom (map_of (copy_kept E R [])) = fst ` set R - set E
         \<and> pluginConfigJsonToString E (Some R) = json_encode (VMap F)
         \<and> (json_Unmarshal parseFloat body (Some []) = Inr (Some R) \<longrightarrow>
              consumerPluginConfigJsonToString parseFloat E body = Inr (json_encode (VMap F)))"
proof -
  have m: "map_of (copy_kept E R []) = map_of R |` (- set E)"
    using assms(1) by (simp add: map_of_copy_kept)
  have "dom (map_of R |` (- set E)) = fst ` set R - set E"
    by (auto simp: dom_map_of_conv_image_fst)
  with m have dm: "dom (map_of (copy_kept E R [])) = fst ` set R - set E"
    by simp
  have d: "distinct (map fst (copy_kept E R []))"
    by (rule distinct_copy_kept) simp
  have e: "json_encode (VMap (copy_kept E R [])) = json_encode (VMap F)"
    using d assms(2) m assms(3) by (intro json_encode_VMap_canonical) simp_all
  have p: "pluginConfigJsonToString E (Some R) = json_encode (VMap F)"
    using e by (simp add: pluginConfigJsonToString_def json_Marshal_def entries_of_def)
  have c: "json_Unmarshal parseFloat body (Some []) = Inr (Some R) \<longrightarrow>
             consumerPluginConfigJsonToString parseFloat E body = Inr (json_encode (VMap F))"
    using e by (simp add: consumerPluginConfigJsonToString_def json_Marshal_def entries_of_def)
  from m dm p c show ?thesis by simp
qed

theorem drift_filter_output_witness:
  "distinct (map fst [(''a'', VFloat64 ''1''), (''id'', VString ''x''), (''created_at'', VFloat64 ''123'')])
   \<and> map_of (copy_kept [''id'', ''created_at'']
         [(''a'', VFloat64 ''1''), (''id'', VString ''x''), (''created_at'', VFloat64 ''123'')] [])
       = map_of [(''a'', VFloat64 ''1'')]
   \<and> pluginConfigJsonToString [''id'', ''created_at'']
         (Some [(''a'', VFloat64 ''1''), (''id'', VString ''x''), (''created_at'', VFloat64 ''123'')])
       = ''{\"a\":1}''
   \<and> consumerPluginConfigJsonToString parseFloat_int15 [''id'', ''created_at'']
         ''{\"a\":1,\"id\":\"x\",\"created_at\":123}''
       = Inr ''{\"a\":1}''"
proof -
  let ?R = "[(''a'', VFloat64 ''1''), (''id'', VString ''x''), (''created_at'', VFloat64 ''123'')]"
  let ?E = "[''id'', ''created_at'']"
  let ?F = "[(''a'', VFloat64 ''1'')]"
  have d: "distinct (map fst ?R)" "distinct (map fst ?F)" by simp_all
  have f: "map_of ?F = map_of ?R |` (- set ?E)"
    by (auto simp: restrict_map_def fun_eq_iff)
  have u: "json_Unmarshal parseFloat_int15 ''{\"a\":1,\"id\":\"x\",\"created_at\":123}'' (Some [])
             = Inr (Some ?R)"
    by code_simp
  have e: "json_encode (VMap ?F) = ''{\"a\":1}''"
    by code_simp
  show ?thesis
    using drift_filter_output [OF d f, of parseFloat_int15 "''{\"a\":1,\"id\":\"x\",\"created_at\":123}''"] u e f
    by simp
qed

section \<open>Properties of the primary encoder\<close>

text \<open>
  C6. In the request of the primary attachment, a non-empty mapping is the outbound
  configuration whatever the blob is; without a mapping the outbound configuration is
  what decoding the blob into a map gives (and a blob that does not decode is an
  error); with neither a mapping nor a blob the outbound configuration is empty.
\<close>

theorem createKongPluginRequest_config:
  "(rd_attrs d ''config'' = Some (VMap M) \<longrightarrow> M \<noteq> [] \<longrightarrow>
      pr_Config (fst (createKongPluginRequestFromResourceData parseFloat d)) = Some M
      \<and> snd (createKongPluginRequestFromResourceData parseFloat d) = None)
   \<and> ((rd_attrs d ''config'' = None \<or> rd_attrs d ''config'' = Some (VMap [])) \<longrightarrow>
       rd_attrs d ''config_json'' = Some (VString J) \<longrightarrow> J \<noteq> [] \<longrightarrow>
         (case json_Unmarshal parseFloat J None of
            Inr m \<Rightarrow>
              pr_Config (fst (createKongPluginRequestFromResourceData parseFloat d)) = m
              \<and> snd (createKongPluginRequestFromResourceData parseFloat d) = None
          | Inl err \<Rightarrow>
              snd (createKongPluginRequestFromResourceData parseFloat d) =
                Some (FailedToUnmarshalConfigJson err)))
   \<and> ((rd_attrs d ''config'' = None \<or> rd_attrs d ''config'' = Some (VMap [])) \<longrightarrow>
       (rd_attrs d ''config_json'' = None \<or> rd_attrs d ''config_json'' = Some (VString [])) \<longrightarrow>
         pr_Config (fst (createKongPluginRequestFromResourceData parseFloat d)) = None
         \<and> snd (createKongPluginRequestFromResourceData parseFloat d) = None)"
proof (intro conjI impI)
  assume "rd_attrs d ''config'' = Some (VMap M)" and "M \<noteq> []"
  then have "readMapFromResource d ''config'' = Some M"
    by (simp add: readMapFromResource_def GetOk_def)
  then show "pr_Config (fst (createKongPluginRequestFromResourceData parseFloat d)) = Some M"
    and "snd (createKongPluginRequestFromResourceData parseFloat d) = None"
    by (simp_all add: createKongPluginRequestFromResourceData_def)
next
  assume "rd_attrs d ''config'' = None \<or> rd_attrs d ''config'' = Some (VMap [])"
    and "rd_attrs d ''config_json'' = Some (VString J)" and "J \<noteq> []"
  then have "readMapFromResource d ''config'' = None"
    and "GetOk d ''config_json'' = (VString J, True)"
    by (auto simp: readMapFromResource_def GetOk_def)
  then show "case json_Unmarshal parseFloat J None of
            Inr m \<Rightarrow>
              pr_Config (fst (createKongPluginRequestFromResourceData parseFloat d)) = m
              \<and> snd (createKongPluginRequestFromResourceData parseFloat d) = None
          | Inl err \<Rightarrow>
              snd (createKongPluginRequestFromResourceData parseFloat d) =
                Some (FailedToUnmarshalConfigJson err)"
    by (simp add: createKongPluginRequestFromResourceData_def split: sum.splits)
next
  assume "rd_attrs d ''config'' = None \<or> rd_attrs d ''config'' = Some (VMap [])"
    and "rd_attrs d ''config_json'' = None \<or> rd_attrs d ''config_json'' = Some (VString [])"
  then have "readMapFromResource d ''config'' = None"
    and "GetOk d ''config_json'' = (VNil, False) \<or> GetOk d ''config_json'' = (VString [], False)"
    by (auto simp: readMapFromResource_def GetOk_def)
  then show "pr_Config (fst (createKongPluginRequestFromResourceData parseFloat d)) = None"
    and "snd (createKongPluginRequestFromResourceData parseFloat d) = None"
    by (auto simp: createKongPluginRequestFromResourceData_def)
qed

theorem createKongPluginRequest_config_witness:
  "pr_Config (fst (createKongPluginRequestFromResourceData parseFloat_int15
      (resource_of '''' [(''config'', VMap [(''k'', VString ''v'')]), (''config_json'', VString ''{}'')])))
     = Some [(''k'', VString ''v'')]
   \<and> snd (createKongPluginRequestFromResourceData parseFloat_int15
      (resource_of '''' [(''config'', VMap [(''k'', VString ''v'')]), (''config_json'', VString ''{}'')]))
     = None
   \<and> pr_Config (fst (createKongPluginRequestFromResourceData parseFloat_int15
      (resource_of '''' [(''config_json'', VString ''{\"a\":1}'')])))
     = Some [(''a'', VFloat64 ''1'')]
   \<and> snd (createKongPluginRequestFromResourceData parseFloat_int15
      (resource_of '''' [(''config_json'', VString ''[1]'')]))
     = Some (FailedToUnmarshalConfigJson (UnmarshalTypeError ''array''))
   \<and> pr_Config (fst (createKongPluginRequestFromResourceData parseFloat_int15 (resource_of '''' [])))
     = None
   \<and> snd (createKongPluginRequestFromResourceData parseFloat_int15 (resource_of '''' [])) = None"
proof -
  have u1: "json_Unmarshal parseFloat_int15 ''{\"a\":1}'' None = Inr (Some [(''a'', VFloat64 ''1'')])"
    by code_simp
  have u2: "json_Unmarshal parseFloat_int15 ''[1]'' None = Inl (UnmarshalTypeError ''array'')"
    by code_simp
  show ?thesis
    using createKongPluginRequest_config
            [of "resource_of '''' [(''config'', VMap [(''k'', VString ''v'')]), (''config_json'', VString ''{}'')]"
                "[(''k'', VString ''v'')]" parseFloat_int15 "''{}''"]
          createKongPluginRequest_config
            [of "resource_of '''' [(''config_json'', VString ''{\"a\":1}'')]" "[]" parseFloat_int15
                "''{\"a\":1}''"]
          createKongPluginRequest_config
            [of "resource_of '''' [(''config_json'', VString ''[1]'')]" "[]" parseFloat_int15 "''[1]''"]
          createKongPluginRequest_config
            [of "resource_of '''' []" "[]" parseFloat_int15 "[]"]
    by (simp add: resource_of_def u1 u2)
qed

section \<open>Properties of the normalizer\<close>

lemma json_encode_VMap_not_Nil: "json_encode (VMap m) \<noteq> []"
  by simp




text \<open>
  C4. The text \<open>null\<close> is a JSON scalar, not an object, and \<open>validateDataJSON\<close>
  accepts it: it returns no error.
\<close>

theorem validateDataJSON_null:
  "json_parse ''null'' = Some JNull
   \<and> validateDataJSON parseFloat_int15 ''null'' ''config_json'' = ([], [])"
  by code_simp

lemma normalizeDataJSON_error:
  "json_Unmarshal parseFloat x (Some []) = Inl err \<Longrightarrow> normalizeDataJSON parseFloat x = []"
  by (simp add: normalizeDataJSON_def)

text \<open>
  C10. The text \<open>null\<close> is not a JSON object, and \<open>normalizeDataJSON\<close> does not
  return the empty string for it: \<open>json.Unmarshal\<close> reports no error, the map is nil,
  and what comes back is \<open>null\<close>, the input itself.
\<close>

theorem normalizeDataJSON_null:
  "json_parse ''null'' = Some JNull \<and> normalizeDataJSON parseFloat_int15 ''null'' = ''null''"
  by code_simp

section \<open>Normalizing twice changes nothing\<close>

subsection \<open>UTF-8\<close>



lemma m64: "j < 64 \<Longrightarrow> (128 + j) mod 64 = (j::nat)"
  by (simp add: mod_add_left_eq [of 128 64 j, symmetric])

lemma m32: "k < 32 \<Longrightarrow> (192 + k) mod 32 = (k::nat)"
  by (simp add: mod_add_left_eq [of 192 32 k, symmetric])

lemma m16: "k < 16 \<Longrightarrow> (224 + k) mod 16 = (k::nat)"
  by (simp add: mod_add_left_eq [of 224 16 k, symmetric])

lemma m8: "k < 8 \<Longrightarrow> (240 + k) mod 8 = (k::nat)"
  by (simp add: mod_add_left_eq [of 240 8 k, symmetric])








lemma co: "char_of (of_char c :: nat) = c" by simp

lemma utf8_DecodeRune_valid:
  assumes d: "utf8_DecodeRune (c0 # p) = (r, w)" and v: "\<not> (r = RuneError \<and> w = 1)"
  shows "\<exists>bs t. c0 # p = bs @ t \<and> utf8_seq r bs \<and> w = length bs"
proof -
  define p0 where "p0 = (of_char c0 :: nat)"
  have c0: "c0 = char_of p0" by (simp add: p0_def)
  show ?thesis
  proof (cases "p0 < 0x80")
    case True
    with d have "r = p0" "w = 1" by (simp_all add: p0_def Let_def)
    moreover have "utf8_seq p0 [char_of p0]" using True by (intro seq1) simp
    ultimately show ?thesis using c0 by (intro exI [of _ "[c0]"] exI [of _ p]) simp
  next
    case a: False
    show ?thesis
    proof (cases "p0 < 0xC2 \<or> 0xF4 < p0")
      case True
      with a d v show ?thesis by (simp add: p0_def Let_def)
    next
      case b: False
      show ?thesis
      proof (cases p)
        case Nil
        with a b d v show ?thesis by (simp add: p0_def Let_def)
      next
        case p: (Cons c1 q)
        define b1 where "b1 = (of_char c1 :: nat)"
        have c1: "c1 = char_of b1" by (simp add: b1_def)
        show ?thesis
        proof (cases "b1 < accept_lo p0 \<or> accept_hi p0 < b1")
          case True
          with a b d v p show ?thesis by (simp add: p0_def b1_def Let_def)
        next
          case r1: False
          have b1r: "128 \<le> b1" "b1 < 192"
            using r1 by (auto simp: accept_lo_def accept_hi_def split: if_splits)
          define y where "y = b1 - 128"
          have y: "y < 64" "b1 = 128 + y" using b1r by (simp_all add: y_def)
          have b1m: "b1 mod 64 = y" using y m64 by simp
          show ?thesis
          proof (cases "p0 < 0xE0")
            case True
            define x where "x = p0 - 192"
            have x: "2 \<le> x" "x < 32" "p0 = 192 + x" using True b by (simp_all add: x_def)
            have "p0 mod 32 = x" using x m32 by simp
            with a b d p r1 True b1m have "r = x * 64 + y" "w = 2"
              by (simp_all add: p0_def [symmetric] b1_def [symmetric] Let_def)
            moreover have "utf8_seq (x * 64 + y) [char_of (192 + x), char_of (128 + y)]"
              using x y by (intro seq2)
            ultimately show ?thesis using c0 c1 x y p
              by (intro exI [of _ "[c0, c1]"] exI [of _ q]) simp
          next
            case n2: False
            show ?thesis
            proof (cases q)
              case Nil
              with a b d v p r1 n2 show ?thesis
                by (simp add: p0_def [symmetric] b1_def [symmetric] Let_def)
            next
              case q: (Cons c2 q2)
              define b2 where "b2 = (of_char c2 :: nat)"
              have c2: "c2 = char_of b2" by (simp add: b2_def)
              show ?thesis
              proof (cases "is_cont b2")
                case False
                with a b d v p r1 n2 q show ?thesis
                  by (simp add: p0_def [symmetric] b1_def [symmetric] b2_def [symmetric] Let_def)
              next
                case k2: True
                define z where "z = b2 - 128"
                have z: "z < 64" "b2 = 128 + z" using k2 by (auto simp: z_def is_cont_def)
                have b2m: "b2 mod 64 = z" using z m64 by simp
                show ?thesis
                proof (cases "p0 < 0xF0")
                  case True
                  define x where "x = p0 - 224"
                  have x: "x < 16" "p0 = 224 + x" using True n2 by (simp_all add: x_def)
                  have xm: "p0 mod 16 = x" using x m16 by simp
                  have lo: "x = 0 \<longrightarrow> 32 \<le> y" and hi: "x = 13 \<longrightarrow> y < 32"
                    using r1 x y by (auto simp: accept_lo_def accept_hi_def split: if_splits)
                  from a b d p r1 n2 q k2 True b1m b2m xm
                  have "r = x * 4096 + y * 64 + z" "w = 3"
                    by (simp_all add: p0_def [symmetric] b1_def [symmetric] b2_def [symmetric] Let_def)
                  moreover have "utf8_seq (x * 4096 + y * 64 + z)
                      [char_of (224 + x), char_of (128 + y), char_of (128 + z)]"
                    using x y z lo hi by (intro seq3)
                  ultimately show ?thesis using c0 c1 c2 x y z p q
                    by (intro exI [of _ "[c0, c1, c2]"] exI [of _ q2]) simp
                next
                  case n3: False
                  show ?thesis
                  proof (cases q2)
                    case Nil
                    with a b d v p r1 n2 q k2 n3 show ?thesis
                      by (simp add: p0_def [symmetric] b1_def [symmetric] b2_def [symmetric] Let_def)
                  next
                    case q2: (Cons c3 q3)
                    define b3 where "b3 = (of_char c3 :: nat)"
                    have c3: "c3 = char_of b3" by (simp add: b3_def)
                    show ?thesis
                    proof (cases "is_cont b3")
                      case False
                      with a b d v p r1 n2 q k2 n3 q2 show ?thesis
                        by (simp add: p0_def [symmetric] b1_def [symmetric] b2_def [symmetric]
                            b3_def [symmetric] Let_def)
                    next
                      case k3: True
                      define u where "u = b3 - 128"
                      have u: "u < 64" "b3 = 128 + u" using k3 by (auto simp: u_def is_cont_def)
                      have b3m: "b3 mod 64 = u" using u m64 by simp
                      define x where "x = p0 - 240"
                      have x: "x \<le> 4" "p0 = 240 + x" using n3 b by (simp_all add: x_def)
                      have xm: "p0 mod 8 = x" using x m8 [of x] by simp
                      have lo: "x = 0 \<longrightarrow> 16 \<le> y" and hi: "x = 4 \<longrightarrow> y < 16"
                        using r1 x y by (auto simp: accept_lo_def accept_hi_def split: if_splits)
                      from a b d p r1 n2 q k2 n3 q2 k3 b1m b2m b3m xm
                      have "r = x * 262144 + y * 4096 + z * 64 + u" "w = 4"
                        by (simp_all add: p0_def [symmetric] b1_def [symmetric] b2_def [symmetric]
                            b3_def [symmetric] Let_def)
                      moreover have "utf8_seq (x * 262144 + y * 4096 + z * 64 + u)
                          [char_of (240 + x), char_of (128 + y), char_of (128 + z), char_of (128 + u)]"
                        using x y z u lo hi by (intro seq4)
                      ultimately show ?thesis using c0 c1 c2 c3 x y z u p q q2
                        by (intro exI [of _ "[c0, c1, c2, c3]"] exI [of _ q3]) simp
                    qed
                  qed
                qed
              qed
            qed
          qed
        qed
      qed
    qed
  qed
qed

lemma div4096: "(r::nat) div 4096 = r div 64 div 64"
proof -
  have "r div 4096 = r div (64 * 64)" by simp
  also have "\<dots> = r div 64 div 64" by (rule div_mult2_eq)
  finally show ?thesis .
qed

lemma div262144: "(r::nat) div 262144 = r div 4096 div 64"
proof -
  have "r div 262144 = r div (4096 * 64)" by simp
  also have "\<dots> = r div 4096 div 64" by (rule div_mult2_eq)
  finally show ?thesis .
qed

lemma scale64: "(q::nat) = a * 64 + b \<Longrightarrow> q * 64 = a * 4096 + b * 64"
  by simp

lemma scale4096: "(q::nat) = a * 64 + b \<Longrightarrow> q * 4096 = a * 262144 + b * 4096"
  by simp

lemma split3: "(r::nat) = (r div 4096) * 4096 + ((r div 64) mod 64) * 64 + r mod 64"
proof -
  have "r div 64 = (r div 64 div 64) * 64 + (r div 64) mod 64" by simp
  then have "(r div 64) * 64 = (r div 64 div 64) * 4096 + ((r div 64) mod 64) * 64"
    by (rule scale64)
  moreover have "r = (r div 64) * 64 + r mod 64" by simp
  ultimately show ?thesis unfolding div4096 by linarith
qed

lemma split4:
  "(r::nat) = (r div 262144) * 262144 + ((r div 4096) mod 64) * 4096
               + ((r div 64) mod 64) * 64 + r mod 64"
proof -
  have "r div 4096 = (r div 4096 div 64) * 64 + (r div 4096) mod 64" by simp
  then have "(r div 4096) * 4096 = (r div 4096 div 64) * 262144 + ((r div 4096) mod 64) * 4096"
    by (rule scale4096)
  then show ?thesis using split3 [of r] unfolding div262144 by linarith
qed

lemma replacement_seq: "utf8_seq RuneError [CHR 0xEF, CHR 0xBF, CHR 0xBD]"
proof -
  have "utf8_seq (15 * 4096 + 63 * 64 + 61) [char_of (224 + 15 :: nat), char_of (128 + 63 :: nat), char_of (128 + 61 :: nat)]"
    by (rule seq3) simp_all
  moreover have "char_of (224 + 15 :: nat) = CHR 0xEF" "char_of (128 + 63 :: nat) = CHR 0xBF"
    "char_of (128 + 61 :: nat) = CHR 0xBD"
    by (simp_all add: char_of_eq_iff)
  ultimately show ?thesis by (simp add: RuneError_def)
qed

lemma utf8_EncodeRune_seq: "\<exists>r'. utf8_seq r' (utf8_EncodeRune r)"
proof -
  consider (a) "r \<le> 0x7F" | (b) "0x7F < r" "r \<le> 0x7FF"
    | (bad) "0x7FF < r" "0x10FFFF < r \<or> utf16_IsSurrogate r"
    | (c) "0x7FF < r" "r \<le> 0xFFFF" "\<not> utf16_IsSurrogate r"
    | (d) "0xFFFF < r" "r \<le> 0x10FFFF" "\<not> utf16_IsSurrogate r"
    by linarith
  then show ?thesis
  proof cases
    case a
    then have "utf8_seq r [char_of r]" by (intro seq1) simp
    with a show ?thesis by (auto simp: utf8_EncodeRune_def)
  next
    case b
    have "utf8_seq ((r div 64) * 64 + r mod 64) [char_of (192 + r div 64), char_of (128 + r mod 64)]"
      using b by (intro seq2) simp_all
    with b show ?thesis by (auto simp: utf8_EncodeRune_def)
  next
    case bad
    with replacement_seq show ?thesis by (auto simp: utf8_EncodeRune_def)
  next
    case c
    have x: "r div 4096 < 16" using c by simp
    have lo: "r div 4096 = 0 \<longrightarrow> 32 \<le> (r div 64) mod 64"
    proof
      assume "r div 4096 = 0"
      then have "r < 4096" by simp
      then have "r div 64 < 64" by simp
      moreover have "32 \<le> r div 64" using c by simp
      ultimately show "32 \<le> (r div 64) mod 64" by simp
    qed
    have hi: "r div 4096 = 13 \<longrightarrow> (r div 64) mod 64 < 32"
    proof
      assume h: "r div 4096 = 13"
      then have "53248 \<le> r" "r < 57344" by simp_all
      with c have r: "r < 55296" by (simp add: utf16_IsSurrogate_def)
      have "r div 64 = 13 * 64 + (r div 64) mod 64"
        using div_mult_mod_eq [of "r div 64" 64] h unfolding div4096 by simp
      moreover have "r div 64 < 864" using r by simp
      ultimately show "(r div 64) mod 64 < 32" by simp
    qed
    have "utf8_seq ((r div 4096) * 4096 + ((r div 64) mod 64) * 64 + r mod 64)
            [char_of (224 + r div 4096), char_of (128 + (r div 64) mod 64), char_of (128 + r mod 64)]"
      using x lo hi by (intro seq3) simp_all
    with c show ?thesis by (auto simp: utf8_EncodeRune_def)
  next
    case d
    have x: "r div 262144 \<le> 4" using d by simp
    have lo: "r div 262144 = 0 \<longrightarrow> 16 \<le> (r div 4096) mod 64"
    proof
      assume "r div 262144 = 0"
      then have "r < 262144" by simp
      then have "r div 4096 < 64" by simp
      moreover have "16 \<le> r div 4096" using d by simp
      ultimately show "16 \<le> (r div 4096) mod 64" by simp
    qed
    have hi: "r div 262144 = 4 \<longrightarrow> (r div 4096) mod 64 < 16"
    proof
      assume h: "r div 262144 = 4"
      have "r div 4096 = 4 * 64 + (r div 4096) mod 64"
        using div_mult_mod_eq [of "r div 4096" 64] h unfolding div262144 by simp
      moreover have "r div 4096 < 272" using d by simp
      ultimately show "(r div 4096) mod 64 < 16" by simp
    qed
    have "utf8_seq ((r div 262144) * 262144 + ((r div 4096) mod 64) * 4096
                      + ((r div 64) mod 64) * 64 + r mod 64)
            [char_of (240 + r div 262144), char_of (128 + (r div 4096) mod 64),
             char_of (128 + (r div 64) mod 64), char_of (128 + r mod 64)]"
      using x lo hi by (intro seq4) simp_all
    with d show ?thesis by (auto simp: utf8_EncodeRune_def)
  qed
qed

subsection \<open>Strings are read back\<close>



lemma utf8_seq_not_Nil: "utf8_seq r bs \<Longrightarrow> bs \<noteq> []"
  by (auto elim: utf8_seq.cases)



lemma emit_None: "emit bs None = None"
  by (simp add: emit_def)

text \<open>What unquote gives is valid UTF-8.\<close>

lemma emit_valid:
  assumes "emit bs r = Some (t, rest)" and "utf8_seq q bs"
    and "\<And>t'. r = Some (t', rest) \<Longrightarrow> valid_utf8 t'"
  shows "valid_utf8 t"
proof -
  from assms(1) obtain t' where r: "r = Some (t', rest)" and t: "t = bs @ t'"
    by (cases r) (auto simp: emit_def)
  from assms(3) [OF r] assms(2) show ?thesis unfolding t by (intro valid_seq)
qed

lemma emit_valid_enc:
  assumes "emit (utf8_EncodeRune q) r = Some (t, rest)"
    and "\<And>t'. r = Some (t', rest) \<Longrightarrow> valid_utf8 t'"
  shows "valid_utf8 t"
  using utf8_EncodeRune_seq [of q] emit_valid [OF assms(1) _ assms(2)] by blast






lemma char_ne: "(of_char c :: nat) \<noteq> (of_char d :: nat) \<Longrightarrow> c \<noteq> d"
  by auto









subsection \<open>Number literals are read back\<close>























subsection \<open>What is decoded is well formed\<close>










lemma those_Cons: "those (x # xs) = (case x of None \<Rightarrow> None | Some y \<Rightarrow> map_option (Cons y) (those xs))"
  by simp












subsection \<open>Values are read back\<close>


























subsection \<open>The normalizer\<close>








end
